theory Spec2Isabelle
  imports Complex_Main "HOL-Library.AList"
begin

section \<open>The analytics endpoints of server.py\<close>

text \<open>
  The three analytics handlers of \<^verbatim>\<open>server.py\<close> (\<^verbatim>\<open>get_trip_analytics\<close>,
  \<^verbatim>\<open>get_hourly_analytics\<close>, \<^verbatim>\<open>get_zone_analytics\<close>) read the whole collection
  \<^verbatim>\<open>db.taxi_trips\<close> and aggregate it. Each handler is modelled as a function of the
  list of documents that \<^verbatim>\<open>find().to_list(length=None)\<close> returned.

  Conventions of the embedding:
  \<^item> a Python \<^verbatim>\<open>float\<close> is an exact real number: arithmetic is not rounded to binary64, and
    \<^verbatim>\<open>round(x, n)\<close> is rounding of the exact value to \<open>n\<close> decimals, ties to even;
  \<^item> a \<^verbatim>\<open>len\<close>, a count and an hour of the day are natural numbers, a location id is an
    integer;
  \<^item> a \<^verbatim>\<open>dict\<close> is an association list in insertion order, which is the order in which
    Python iterates over it;
  \<^item> an exception is a value: the body of a handler returns \<open>py_error + 'a\<close>, and the
    handler's \<^verbatim>\<open>except Exception\<close> turns it into the \<^verbatim>\<open>HTTPException\<close> with status 500.
\<close>

subsection \<open>Data model\<close>

type_synonym pyfloat = real

text \<open>
  The stored \<^verbatim>\<open>pickup_datetime\<close> is the ISO text of a \<^verbatim>\<open>datetime\<close>; the hourly handler
  reads it back with \<^verbatim>\<open>datetime.fromisoformat\<close>. The model holds the parsed value. Python
  keeps \<^verbatim>\<open>hour\<close> in \<^verbatim>\<open>range(24)\<close> for every \<^verbatim>\<open>datetime\<close> object; this is the predicate
  \<open>valid_trip\<close> below.
\<close>

record datetime =
  year :: nat
  month :: nat
  day :: nat
  hour :: nat
  minute :: nat
  second :: nat

record TaxiTrip =
  trip_id :: string
  pickup_datetime :: datetime
  dropoff_datetime :: datetime
  pickup_location_id :: int
  dropoff_location_id :: int
  passenger_count :: int
  trip_distance :: pyfloat
  fare_amount :: pyfloat
  total_amount :: pyfloat
  payment_type :: int
  trip_duration_minutes :: pyfloat
  is_delayed :: bool
  pickup_wait_time_minutes :: pyfloat

record TripAnalytics =
  total_trips :: nat
  avg_trip_duration :: pyfloat
  avg_fare :: pyfloat
  total_revenue :: pyfloat
  delayed_trips_count :: nat
  delay_percentage :: pyfloat
  avg_wait_time :: pyfloat

record HourlyAnalytics =
  hour :: nat
  avg_wait_time :: pyfloat
  trip_count :: nat
  delay_percentage :: pyfloat

record ZoneAnalytics =
  location_id :: int
  zone_name :: string
  trip_count :: nat
  avg_wait_time :: pyfloat
  delay_percentage :: pyfloat

definition valid_trip :: "TaxiTrip \<Rightarrow> bool" where
  "valid_trip trip \<longleftrightarrow> datetime.hour (pickup_datetime trip) < 24"

text \<open>The value of \<^verbatim>\<open>hourly_data[hour]\<close> and of \<^verbatim>\<open>zone_data[location_id]\<close>: a dict of three lists.\<close>

record group_data =
  trips :: "TaxiTrip list"
  wait_times :: "pyfloat list"
  delays :: "bool list"

subsection \<open>Exceptions\<close>

datatype py_error = ZeroDivisionError

text \<open>
  \<^verbatim>\<open>HTTPException(status_code=500, detail=f"<prefix>{str(e)}")\<close>: the status code, the
  prefix of the detail and the exception that was caught.
\<close>

datatype http_error = HTTPException nat string py_error

definition truediv :: "pyfloat \<Rightarrow> pyfloat \<Rightarrow> py_error + pyfloat" where
  "truediv a b = (if b = 0 then Inl ZeroDivisionError else Inr (a / b))"

definition bind_exn :: "py_error + 'a \<Rightarrow> ('a \<Rightarrow> py_error + 'b) \<Rightarrow> py_error + 'b" where
  "bind_exn m f = (case m of Inl e \<Rightarrow> Inl e | Inr v \<Rightarrow> f v)"

definition except_http :: "string \<Rightarrow> py_error + 'a \<Rightarrow> http_error + 'a" where
  "except_http prefix m = (case m of Inl e \<Rightarrow> Inl (HTTPException 500 prefix e) | Inr v \<Rightarrow> Inr v)"

subsection \<open>Built-ins\<close>

text \<open>\<^verbatim>\<open>sum(xs)\<close> starts from 0 and adds the items from left to right.\<close>

definition py_sum :: "'a::monoid_add list \<Rightarrow> 'a" where
  "py_sum xs = foldl (+) 0 xs"

definition round_half_even :: "real \<Rightarrow> int" where
  "round_half_even x =
     (let f = \<lfloor>x\<rfloor>; d = x - of_int f
      in if d < 1 / 2 then f else if 1 / 2 < d then f + 1 else if even f then f else f + 1)"

text \<open>\<^verbatim>\<open>round(x, ndigits)\<close>.\<close>

definition py_round :: "pyfloat \<Rightarrow> nat \<Rightarrow> pyfloat" where
  "py_round x ndigits = of_int (round_half_even (x * 10 ^ ndigits)) / 10 ^ ndigits"

text \<open>\<^verbatim>\<open>str(n)\<close> for an int, as the f-string \<^verbatim>\<open>f"Zone {location_id}"\<close> formats it.\<close>

definition digit_char :: "nat \<Rightarrow> char" where
  "digit_char d = ''0123456789'' ! d"

function str_nat :: "nat \<Rightarrow> string" where
  "str_nat n = (if n < 10 then [digit_char n] else str_nat (n div 10) @ [digit_char (n mod 10)])"
  by pat_completeness auto
termination
  by (relation "measure id") auto

declare str_nat.simps [simp del]

definition str_int :: "int \<Rightarrow> string" where
  "str_int i = (if i < 0 then CHR ''-'' # str_nat (nat (- i)) else str_nat (nat i))"

text \<open>
  \<^verbatim>\<open>xs.sort(key=key, reverse=True)\<close>: CPython reverses the list, sorts it with its stable
  ascending sort and reverses the result, which keeps items of equal key in their
  original order. \<open>sort_key\<close> is a stable ascending sort; a stable sort determines its
  result.
\<close>

definition sort_reverse :: "('a \<Rightarrow> nat) \<Rightarrow> 'a list \<Rightarrow> 'a list" where
  "sort_reverse key xs = rev (sort_key key (rev xs))"

subsection \<open>GET /analytics/overview\<close>

definition get_trip_analytics_body :: "TaxiTrip list \<Rightarrow> py_error + TripAnalytics" where
  "get_trip_analytics_body taxi_trips =
     (if taxi_trips = [] then
        Inr \<lparr>total_trips = 0, avg_trip_duration = 0, avg_fare = 0, total_revenue = 0,
             delayed_trips_count = 0, TripAnalytics.delay_percentage = 0,
             TripAnalytics.avg_wait_time = 0\<rparr>
      else
        let n = length taxi_trips in
        bind_exn (truediv (py_sum (map trip_duration_minutes taxi_trips)) (real n))
          (\<lambda>avg_duration.
        bind_exn (truediv (py_sum (map fare_amount taxi_trips)) (real n))
          (\<lambda>avg_fare_v.
        let revenue = py_sum (map total_amount taxi_trips);
            delayed_count = py_sum (map (\<lambda>trip. 1::nat) (filter is_delayed taxi_trips))
        in
        bind_exn (truediv (real delayed_count) (real n))
          (\<lambda>q.
        let delay_pct = q * 100 in
        bind_exn (truediv (py_sum (map pickup_wait_time_minutes taxi_trips)) (real n))
          (\<lambda>avg_wait.
        Inr \<lparr>total_trips = n,
             avg_trip_duration = py_round avg_duration 1,
             avg_fare = py_round avg_fare_v 2,
             total_revenue = py_round revenue 2,
             delayed_trips_count = delayed_count,
             TripAnalytics.delay_percentage = py_round delay_pct 1,
             TripAnalytics.avg_wait_time = py_round avg_wait 1\<rparr>)))))"

definition get_trip_analytics :: "TaxiTrip list \<Rightarrow> http_error + TripAnalytics" where
  "get_trip_analytics taxi_trips =
     except_http ''Analytics error: '' (get_trip_analytics_body taxi_trips)"

subsection \<open>GET /analytics/hourly\<close>

definition new_group :: group_data where
  "new_group = \<lparr>trips = [], wait_times = [], delays = []\<rparr>"

text \<open>
  One pass of the first loop. After the \<^verbatim>\<open>if hour not in hourly_data\<close> the key is in the
  dict, so the three subscripts that follow cannot raise \<^verbatim>\<open>KeyError\<close>.
\<close>

definition hourly_step :: "(nat \<times> group_data) list \<Rightarrow> TaxiTrip \<Rightarrow> (nat \<times> group_data) list" where
  "hourly_step hourly_data trip =
     (let h = datetime.hour (pickup_datetime trip);
          d0 = (if map_of hourly_data h = None then AList.update h new_group hourly_data
                else hourly_data);
          d1 = AList.map_entry h (\<lambda>data. data\<lparr>trips := trips data @ [trip]\<rparr>) d0;
          d2 = AList.map_entry h
                 (\<lambda>data. data\<lparr>wait_times := wait_times data @ [pickup_wait_time_minutes trip]\<rparr>) d1
      in AList.map_entry h (\<lambda>data. data\<lparr>delays := delays data @ [is_delayed trip]\<rparr>) d2)"

text \<open>One pass of the loop \<^verbatim>\<open>for hour in range(24)\<close>: the entry that is appended.\<close>

definition hourly_entry :: "(nat \<times> group_data) list \<Rightarrow> nat \<Rightarrow> py_error + HourlyAnalytics" where
  "hourly_entry hourly_data h =
     (case map_of hourly_data h of
        Some data \<Rightarrow>
          bind_exn (truediv (py_sum (wait_times data)) (real (length (wait_times data))))
            (\<lambda>avg_wait.
          bind_exn (truediv (real (py_sum (map of_bool (delays data)))) (real (length (delays data))))
            (\<lambda>q.
          let delay_pct = q * 100; cnt = length (trips data) in
          Inr \<lparr>hour = h, HourlyAnalytics.avg_wait_time = py_round avg_wait 1,
               HourlyAnalytics.trip_count = cnt,
               HourlyAnalytics.delay_percentage = py_round delay_pct 1\<rparr>))
      | None \<Rightarrow>
          Inr \<lparr>hour = h, HourlyAnalytics.avg_wait_time = py_round 0 1,
               HourlyAnalytics.trip_count = 0,
               HourlyAnalytics.delay_percentage = py_round 0 1\<rparr>)"

fun hourly_loop ::
  "(nat \<times> group_data) list \<Rightarrow> nat list \<Rightarrow> HourlyAnalytics list \<Rightarrow> py_error + HourlyAnalytics list"
where
  "hourly_loop hourly_data [] result = Inr result"
| "hourly_loop hourly_data (h # hs) result =
     (case hourly_entry hourly_data h of
        Inl e \<Rightarrow> Inl e
      | Inr entry \<Rightarrow> hourly_loop hourly_data hs (result @ [entry]))"

definition get_hourly_analytics_body :: "TaxiTrip list \<Rightarrow> py_error + HourlyAnalytics list" where
  "get_hourly_analytics_body taxi_trips =
     (let hourly_data = foldl hourly_step [] taxi_trips
      in hourly_loop hourly_data [0..<24] [])"

definition get_hourly_analytics :: "TaxiTrip list \<Rightarrow> http_error + HourlyAnalytics list" where
  "get_hourly_analytics taxi_trips =
     except_http ''Hourly analytics error: '' (get_hourly_analytics_body taxi_trips)"

subsection \<open>GET /analytics/zones\<close>

definition zone_step :: "(int \<times> group_data) list \<Rightarrow> TaxiTrip \<Rightarrow> (int \<times> group_data) list" where
  "zone_step zone_data trip =
     (let loc = pickup_location_id trip;
          d0 = (if map_of zone_data loc = None then AList.update loc new_group zone_data
                else zone_data);
          d1 = AList.map_entry loc (\<lambda>data. data\<lparr>trips := trips data @ [trip]\<rparr>) d0;
          d2 = AList.map_entry loc
                 (\<lambda>data. data\<lparr>wait_times := wait_times data @ [pickup_wait_time_minutes trip]\<rparr>) d1
      in AList.map_entry loc (\<lambda>data. data\<lparr>delays := delays data @ [is_delayed trip]\<rparr>) d2)"

text \<open>One pass of the loop over \<^verbatim>\<open>zone_data.items()\<close>: the entry that is appended.\<close>

definition zone_entry :: "int \<times> group_data \<Rightarrow> py_error + ZoneAnalytics" where
  "zone_entry item =
     (let loc = fst item; data = snd item in
      bind_exn (truediv (py_sum (wait_times data)) (real (length (wait_times data))))
        (\<lambda>avg_wait.
      bind_exn (truediv (real (py_sum (map of_bool (delays data)))) (real (length (delays data))))
        (\<lambda>q.
      let delay_pct = q * 100; cnt = length (trips data); name = ''Zone '' @ str_int loc in
      Inr \<lparr>location_id = loc, zone_name = name, ZoneAnalytics.trip_count = cnt,
           ZoneAnalytics.avg_wait_time = py_round avg_wait 1,
           ZoneAnalytics.delay_percentage = py_round delay_pct 1\<rparr>)))"

fun zone_loop ::
  "(int \<times> group_data) list \<Rightarrow> ZoneAnalytics list \<Rightarrow> py_error + ZoneAnalytics list"
where
  "zone_loop [] result = Inr result"
| "zone_loop (item # items) result =
     (case zone_entry item of
        Inl e \<Rightarrow> Inl e
      | Inr entry \<Rightarrow> zone_loop items (result @ [entry]))"

definition get_zone_analytics_body :: "TaxiTrip list \<Rightarrow> py_error + ZoneAnalytics list" where
  "get_zone_analytics_body taxi_trips =
     (let zone_data = foldl zone_step [] taxi_trips in
      case zone_loop zone_data [] of
        Inl e \<Rightarrow> Inl e
      | Inr result \<Rightarrow> Inr (take 20 (sort_reverse ZoneAnalytics.trip_count result)))"

definition get_zone_analytics :: "TaxiTrip list \<Rightarrow> http_error + ZoneAnalytics list" where
  "get_zone_analytics taxi_trips =
     except_http ''Zone analytics error: '' (get_zone_analytics_body taxi_trips)"

subsection \<open>The handlers on a store\<close>

text \<open>
  In Python the list \<^verbatim>\<open>trips\<close> holds references to the document dicts, and both the list
  and the documents are mutable. A store is the content of that list and the document
  behind each reference. A handler at store level returns its response together with the
  store it leaves.

  The statements of the three handlers that touch the input are the iterations
  \<^verbatim>\<open>for trip in trips\<close> (also inside the generator expressions of the overview), \<^verbatim>\<open>len(trips)\<close>
  and the subscripts \<^verbatim>\<open>trip['...']\<close>, all of them reads; \<^verbatim>\<open>append\<close> and \<^verbatim>\<open>sort\<close> are
  called on lists the handler has created itself, and the reference that
  \<^verbatim>\<open>data['trips'].append(trip)\<close> keeps is only counted by \<^verbatim>\<open>len\<close>.
\<close>

type_synonym ref = nat

record store =
  trip_refs :: "ref list"
  documents :: "ref \<Rightarrow> TaxiTrip"

text \<open>\<^verbatim>\<open>for trip in trips: body\<close>, where the body reads the document and updates local state.\<close>

fun for_each_st :: "('acc \<Rightarrow> TaxiTrip \<Rightarrow> 'acc) \<Rightarrow> ref list \<Rightarrow> 'acc \<Rightarrow> store \<Rightarrow> 'acc \<times> store" where
  "for_each_st body [] acc s = (acc, s)"
| "for_each_st body (r # rs) acc s = for_each_st body rs (body acc (documents s r)) s"

text \<open>The documents a generator expression over \<^verbatim>\<open>trips\<close> reads, in order.\<close>

definition read_st :: "store \<Rightarrow> TaxiTrip list \<times> store" where
  "read_st s = for_each_st (\<lambda>acc trip. acc @ [trip]) (trip_refs s) [] s"

definition get_trip_analytics_st :: "store \<Rightarrow> (http_error + TripAnalytics) \<times> store" where
  "get_trip_analytics_st s =
     (let (taxi_trips, s1) = read_st s in (get_trip_analytics taxi_trips, s1))"

definition get_hourly_analytics_st :: "store \<Rightarrow> (http_error + HourlyAnalytics list) \<times> store" where
  "get_hourly_analytics_st s =
     (let (hourly_data, s1) = for_each_st hourly_step (trip_refs s) [] s
      in (except_http ''Hourly analytics error: '' (hourly_loop hourly_data [0..<24] []), s1))"

definition get_zone_analytics_st :: "store \<Rightarrow> (http_error + ZoneAnalytics list) \<times> store" where
  "get_zone_analytics_st s =
     (let (zone_data, s1) = for_each_st zone_step (trip_refs s) [] s
      in (except_http ''Zone analytics error: ''
            (case zone_loop zone_data [] of
               Inl e \<Rightarrow> Inl e
             | Inr result \<Rightarrow> Inr (take 20 (sort_reverse ZoneAnalytics.trip_count result))),
          s1))"

text \<open>Two calls of a handler, one after the other: both responses and the final store.\<close>

definition call_twice :: "(store \<Rightarrow> 'r \<times> store) \<Rightarrow> store \<Rightarrow> 'r \<times> 'r \<times> store" where
  "call_twice handler s =
     (let (r1, s1) = handler s; (r2, s2) = handler s1 in (r1, r2, s2))"

text \<open>The record list a store holds: what the value-level handlers are given.\<close>

definition load :: "store \<Rightarrow> TaxiTrip list" where
  "load s = map (documents s) (trip_refs s)"

subsection \<open>Vocabulary of the specification\<close>

text \<open>
  The words the specification uses for what the handlers compute: the mean of a
  sequence, the partition of the records by hour and by pickup zone, the fraction of
  delayed records, and the order in which keys first appear.
\<close>

definition mean :: "real list \<Rightarrow> real" where
  "mean xs = sum_list xs / real (length xs)"

definition hour_partition :: "TaxiTrip list \<Rightarrow> nat \<Rightarrow> TaxiTrip list" where
  "hour_partition taxi_trips h =
     filter (\<lambda>trip. datetime.hour (pickup_datetime trip) = h) taxi_trips"

definition zone_partition :: "TaxiTrip list \<Rightarrow> int \<Rightarrow> TaxiTrip list" where
  "zone_partition taxi_trips loc = filter (\<lambda>trip. pickup_location_id trip = loc) taxi_trips"

definition delayed_fraction :: "TaxiTrip list \<Rightarrow> real" where
  "delayed_fraction p = real (length (filter is_delayed p)) / real (length p)"

text \<open>The distinct items of a list, each at the place of its first occurrence.\<close>

fun first_seen :: "'a list \<Rightarrow> 'a list" where
  "first_seen [] = []"
| "first_seen (x # xs) = x # filter (\<lambda>y. y \<noteq> x) (first_seen xs)"

text \<open>The position of the first occurrence of an item (the length of the list when there is none).\<close>

fun first_index :: "'a list \<Rightarrow> 'a \<Rightarrow> nat" where
  "first_index [] x = 0"
| "first_index (y # ys) x = (if y = x then 0 else Suc (first_index ys x))"

subsection \<open>The grouping loops, in closed form\<close>

text \<open>
  Both grouping loops run the same body, with the hour of the pickup and the pickup
  zone as the key. \<open>group_step\<close> is that body for any key, \<open>group_of\<close> the value a key
  ends with, \<open>grouped\<close> the dict after the loop.
\<close>

definition add_trip :: "TaxiTrip \<Rightarrow> group_data \<Rightarrow> group_data" where
  "add_trip trip data =
     data\<lparr>trips := trips data @ [trip],
          wait_times := wait_times data @ [pickup_wait_time_minutes trip],
          delays := delays data @ [is_delayed trip]\<rparr>"

definition group_step ::
  "(TaxiTrip \<Rightarrow> 'k) \<Rightarrow> ('k \<times> group_data) list \<Rightarrow> TaxiTrip \<Rightarrow> ('k \<times> group_data) list"
where
  "group_step key d trip =
     (let k = key trip;
          d0 = (if map_of d k = None then AList.update k new_group d else d);
          d1 = AList.map_entry k (\<lambda>data. data\<lparr>trips := trips data @ [trip]\<rparr>) d0;
          d2 = AList.map_entry k
                 (\<lambda>data. data\<lparr>wait_times := wait_times data @ [pickup_wait_time_minutes trip]\<rparr>) d1
      in AList.map_entry k (\<lambda>data. data\<lparr>delays := delays data @ [is_delayed trip]\<rparr>) d2)"

definition group_of :: "(TaxiTrip \<Rightarrow> 'k) \<Rightarrow> TaxiTrip list \<Rightarrow> 'k \<Rightarrow> group_data" where
  "group_of key taxi_trips k =
     (let p = filter (\<lambda>trip. key trip = k) taxi_trips
      in \<lparr>trips = p, wait_times = map pickup_wait_time_minutes p, delays = map is_delayed p\<rparr>)"

definition grouped :: "(TaxiTrip \<Rightarrow> 'k) \<Rightarrow> TaxiTrip list \<Rightarrow> ('k \<times> group_data) list" where
  "grouped key taxi_trips =
     map (\<lambda>k. (k, group_of key taxi_trips k)) (first_seen (map key taxi_trips))"

text \<open>The overview, the entry of one hour and the entry of one zone, in the words of the specification.\<close>

definition overview_row :: "TaxiTrip list \<Rightarrow> TripAnalytics" where
  "overview_row taxi_trips =
     \<lparr>total_trips = length taxi_trips,
      avg_trip_duration =
        (if taxi_trips = [] then 0 else py_round (mean (map trip_duration_minutes taxi_trips)) 1),
      avg_fare = (if taxi_trips = [] then 0 else py_round (mean (map fare_amount taxi_trips)) 2),
      total_revenue =
        (if taxi_trips = [] then 0 else py_round (sum_list (map total_amount taxi_trips)) 2),
      delayed_trips_count = length (filter is_delayed taxi_trips),
      TripAnalytics.delay_percentage =
        (if taxi_trips = [] then 0
         else py_round (100 * real (length (filter is_delayed taxi_trips)) / real (length taxi_trips)) 1),
      TripAnalytics.avg_wait_time =
        (if taxi_trips = [] then 0 else py_round (mean (map pickup_wait_time_minutes taxi_trips)) 1)\<rparr>"

definition hourly_row :: "TaxiTrip list \<Rightarrow> nat \<Rightarrow> HourlyAnalytics" where
  "hourly_row taxi_trips h =
     (let p = hour_partition taxi_trips h in
      \<lparr>hour = h,
       HourlyAnalytics.avg_wait_time =
         (if p = [] then 0 else py_round (mean (map pickup_wait_time_minutes p)) 1),
       HourlyAnalytics.trip_count = length p,
       HourlyAnalytics.delay_percentage =
         (if p = [] then 0 else py_round (100 * delayed_fraction p) 1)\<rparr>)"

definition zone_row :: "TaxiTrip list \<Rightarrow> int \<Rightarrow> ZoneAnalytics" where
  "zone_row taxi_trips loc =
     (let p = zone_partition taxi_trips loc in
      \<lparr>location_id = loc,
       zone_name = ''Zone '' @ str_int loc,
       ZoneAnalytics.trip_count = length p,
       ZoneAnalytics.avg_wait_time = py_round (mean (map pickup_wait_time_minutes p)) 1,
       ZoneAnalytics.delay_percentage = py_round (100 * delayed_fraction p) 1\<rparr>)"

subsection \<open>Sample records\<close>

text \<open>
  A record with the given pickup hour, pickup zone, waiting time and delay flag, and with
  duration 20, fare 10 and total 13: \<open>sample_trip 5 42 15 True\<close> is the example record of the
  specification.
\<close>

definition sample_trip :: "nat \<Rightarrow> int \<Rightarrow> pyfloat \<Rightarrow> bool \<Rightarrow> TaxiTrip" where
  "sample_trip h loc w d =
     \<lparr>trip_id = ''trip'',
      pickup_datetime = \<lparr>year = 2024, month = 1, day = 1, datetime.hour = h, minute = 0, second = 0\<rparr>,
      dropoff_datetime = \<lparr>year = 2024, month = 1, day = 1, datetime.hour = h, minute = 20, second = 0\<rparr>,
      pickup_location_id = loc, dropoff_location_id = 1, passenger_count = 1, trip_distance = 1,
      fare_amount = 10, total_amount = 13, payment_type = 1, trip_duration_minutes = 20,
      is_delayed = d, pickup_wait_time_minutes = w\<rparr>"

text \<open>Four records in three zones; zone 42 occurs twice, zones 7 and 9 once each.\<close>

definition sample_trips :: "TaxiTrip list" where
  "sample_trips =
     [sample_trip 5 7 3 False, sample_trip 5 42 15 True, sample_trip 6 9 4 False,
      sample_trip 7 42 4 False]"

section \<open>Auxiliary facts\<close>

subsection \<open>Sums, rounding and the grouping loop\<close>

lemma foldl_add_sum_list: "foldl (+) a xs = (a::'a::monoid_add) + sum_list xs"
  by (induction xs arbitrary: a) (simp_all add: add.assoc)

lemma py_sum_sum_list: "py_sum xs = sum_list xs"
  by (simp add: py_sum_def foldl_add_sum_list)

lemma py_round_zero: "py_round 0 n = 0"
  by (simp add: py_round_def round_half_even_def)

lemma set_first_seen: "set (first_seen xs) = set xs"
  by (induction xs) auto

lemma distinct_first_seen: "distinct (first_seen xs)"
  by (induction xs) (auto simp: set_first_seen)

lemma first_seen_snoc:
  "first_seen (xs @ [x]) = (if x \<in> set xs then first_seen xs else first_seen xs @ [x])"
  by (induction xs) (auto simp: set_first_seen)

lemma update_absent: "k \<notin> fst ` set al \<Longrightarrow> AList.update k v al = al @ [(k, v)]"
  by (induction al) auto

lemma map_entry_append_absent:
  "k \<notin> fst ` set al \<Longrightarrow> AList.map_entry k f (al @ [(k, v)]) = al @ [(k, f v)]"
  by (induction al) auto

lemma map_entry_comp:
  "AList.map_entry k f (AList.map_entry k g al) = AList.map_entry k (\<lambda>v. f (g v)) al"
  by (induction al) auto

lemma map_entry_keyed:
  "distinct ks \<Longrightarrow>
     AList.map_entry k f (map (\<lambda>j. (j, F j)) ks) =
     map (\<lambda>j. (j, if j = k then f (F j) else F j)) ks"
proof (induction ks)
  case Nil
  then show ?case by simp
next
  case (Cons a ks)
  show ?case
  proof (cases "a = k")
    case True
    with Cons.prems have "k \<notin> set ks" by simp
    then have "map (\<lambda>j. (j, if j = k then f (F j) else F j)) ks = map (\<lambda>j. (j, F j)) ks"
      by (intro map_cong) auto
    with True show ?thesis by simp
  next
    case False
    with Cons show ?thesis by simp
  qed
qed

lemma map_of_keyed:
  "map_of (map (\<lambda>j. (j, F j)) ks) k = (if k \<in> set ks then Some (F k) else None)"
  by (induction ks) auto

text \<open>The key is in the dict when the three subscripts of the loop body are evaluated.\<close>

lemma group_key_present:
  "map_of (if map_of d k = None then AList.update k v d else d) k \<noteq> None"
  by (simp add: update_conv')

lemma group_step_add_trip:
  "group_step key d trip =
     (if map_of d (key trip) = None then d @ [(key trip, add_trip trip new_group)]
      else AList.map_entry (key trip) (add_trip trip) d)"
proof (cases "map_of d (key trip) = None")
  case True
  then have "key trip \<notin> fst ` set d" by (simp add: map_of_eq_None_iff)
  then show ?thesis
    using True
    by (simp add: group_step_def Let_def update_absent map_entry_append_absent add_trip_def)
next
  case False
  have "(\<lambda>v. v\<lparr>trips := trips v @ [trip],
                wait_times := wait_times v @ [pickup_wait_time_minutes trip],
                delays := delays v @ [is_delayed trip]\<rparr>) = add_trip trip"
    by (intro ext) (simp add: add_trip_def)
  moreover from False obtain y where "map_of d (key trip) = Some y" by auto
  ultimately show ?thesis
    by (simp add: group_step_def Let_def map_entry_comp)
qed

lemma group_of_snoc_other:
  "key trip \<noteq> k \<Longrightarrow> group_of key (taxi_trips @ [trip]) k = group_of key taxi_trips k"
  by (simp add: group_of_def)

lemma group_of_snoc_same:
  "group_of key (taxi_trips @ [trip]) (key trip) = add_trip trip (group_of key taxi_trips (key trip))"
  by (simp add: group_of_def add_trip_def Let_def)

lemma group_of_absent:
  "k \<notin> key ` set taxi_trips \<Longrightarrow> group_of key taxi_trips k = new_group"
proof -
  assume "k \<notin> key ` set taxi_trips"
  then have "filter (\<lambda>trip. key trip = k) taxi_trips = []"
    by (auto simp: filter_empty_conv)
  then show ?thesis by (simp add: group_of_def new_group_def)
qed

lemma group_step_grouped:
  "group_step key (grouped key taxi_trips) trip = grouped key (taxi_trips @ [trip])"
proof (cases "key trip \<in> key ` set taxi_trips")
  case True
  then have seen: "key trip \<in> set (first_seen (map key taxi_trips))"
    by (simp add: set_first_seen)
  have "group_step key (grouped key taxi_trips) trip =
      AList.map_entry (key trip) (add_trip trip) (grouped key taxi_trips)"
    using seen by (simp add: group_step_add_trip grouped_def map_of_keyed)
  also have "\<dots> = map (\<lambda>j. (j, if j = key trip then add_trip trip (group_of key taxi_trips j)
                                 else group_of key taxi_trips j))
                     (first_seen (map key taxi_trips))"
    by (simp add: grouped_def map_entry_keyed distinct_first_seen)
  also have "\<dots> = map (\<lambda>j. (j, group_of key (taxi_trips @ [trip]) j))
                     (first_seen (map key taxi_trips))"
    by (intro map_cong) (auto simp: group_of_snoc_other group_of_snoc_same)
  also have "\<dots> = grouped key (taxi_trips @ [trip])"
    using True by (simp add: grouped_def first_seen_snoc)
  finally show ?thesis .
next
  case False
  then have unseen: "key trip \<notin> set (first_seen (map key taxi_trips))"
    by (simp add: set_first_seen)
  have step: "group_step key (grouped key taxi_trips) trip =
      grouped key taxi_trips @ [(key trip, add_trip trip new_group)]"
    using unseen by (simp add: group_step_add_trip grouped_def map_of_keyed)
  have last: "add_trip trip new_group = group_of key (taxi_trips @ [trip]) (key trip)"
    using False by (simp add: group_of_snoc_same group_of_absent)
  have front: "grouped key taxi_trips =
      map (\<lambda>j. (j, group_of key (taxi_trips @ [trip]) j)) (first_seen (map key taxi_trips))"
  proof -
    have "key trip \<noteq> j" if "j \<in> set (first_seen (map key taxi_trips))" for j
      using that unseen by auto
    then show ?thesis
      unfolding grouped_def by (intro map_cong) (simp_all add: group_of_snoc_other)
  qed
  have target: "grouped key (taxi_trips @ [trip]) =
      map (\<lambda>j. (j, group_of key (taxi_trips @ [trip]) j)) (first_seen (map key taxi_trips)) @
      [(key trip, group_of key (taxi_trips @ [trip]) (key trip))]"
    using False by (simp add: grouped_def first_seen_snoc)
  show ?thesis
    unfolding step last target by (subst front) (rule refl)
qed

lemma foldl_group_step: "foldl (group_step key) [] taxi_trips = grouped key taxi_trips"
proof (induction taxi_trips rule: rev_induct)
  case Nil
  then show ?case by (simp add: grouped_def)
next
  case (snoc trip taxi_trips)
  then show ?case by (simp add: group_step_grouped)
qed

lemma hourly_step_group_step:
  "hourly_step = group_step (\<lambda>trip. datetime.hour (pickup_datetime trip))"
  by (intro ext) (simp add: hourly_step_def group_step_def)

lemma zone_step_group_step: "zone_step = group_step pickup_location_id"
  by (intro ext) (simp add: zone_step_def group_step_def)

lemma sum_list_ones: "sum_list (map (\<lambda>x. Suc 0) xs) = length xs"
  by (induction xs) simp_all





lemma overview_nonempty:
  assumes "taxi_trips \<noteq> []"
  shows "get_trip_analytics_body taxi_trips =
     Inr \<lparr>total_trips = length taxi_trips,
          avg_trip_duration = py_round (mean (map trip_duration_minutes taxi_trips)) 1,
          avg_fare = py_round (mean (map fare_amount taxi_trips)) 2,
          total_revenue = py_round (sum_list (map total_amount taxi_trips)) 2,
          delayed_trips_count = length (filter is_delayed taxi_trips),
          TripAnalytics.delay_percentage =
            py_round (100 * real (length (filter is_delayed taxi_trips)) / real (length taxi_trips)) 1,
          TripAnalytics.avg_wait_time = py_round (mean (map pickup_wait_time_minutes taxi_trips)) 1\<rparr>"
  using assms
  by (simp add: get_trip_analytics_body_def Let_def truediv_def bind_exn_def py_sum_sum_list
      sum_list_ones mean_def mult.commute)

lemma except_http_Inr: "except_http p (Inr v) = Inr v"
  by (simp add: except_http_def)

subsection \<open>The hourly handler in closed form\<close>

lemma partition_nonempty:
  "k \<in> key ` set taxi_trips \<Longrightarrow> filter (\<lambda>trip. key trip = k) taxi_trips \<noteq> []"
  by (auto simp: filter_empty_conv)

lemma partition_empty:
  "k \<notin> key ` set taxi_trips \<Longrightarrow> filter (\<lambda>trip. key trip = k) taxi_trips = []"
  by (auto simp: filter_empty_conv)

lemma sum_list_of_bool_comp: "sum_list (map (of_bool \<circ> p) xs) = length (filter p xs)"
  by (induction xs) simp_all

lemma hourly_entry_grouped:
  "hourly_entry (grouped (\<lambda>trip. datetime.hour (pickup_datetime trip)) taxi_trips) h =
     Inr (hourly_row taxi_trips h)"
proof (cases "h \<in> (\<lambda>trip. datetime.hour (pickup_datetime trip)) ` set taxi_trips")
  case True
  then have ne: "hour_partition taxi_trips h \<noteq> []"
    unfolding hour_partition_def by (rule partition_nonempty)
  have look: "map_of (grouped (\<lambda>trip. datetime.hour (pickup_datetime trip)) taxi_trips) h =
      Some (group_of (\<lambda>trip. datetime.hour (pickup_datetime trip)) taxi_trips h)"
    using True by (simp add: grouped_def map_of_keyed set_first_seen)
  have grp: "group_of (\<lambda>trip. datetime.hour (pickup_datetime trip)) taxi_trips h =
      \<lparr>trips = hour_partition taxi_trips h,
       wait_times = map pickup_wait_time_minutes (hour_partition taxi_trips h),
       delays = map is_delayed (hour_partition taxi_trips h)\<rparr>"
    by (simp add: group_of_def hour_partition_def Let_def)
  show ?thesis
    using ne
    by (simp add: hourly_entry_def look grp truediv_def bind_exn_def py_sum_sum_list
        sum_list_of_bool_comp hourly_row_def mean_def delayed_fraction_def Let_def mult.commute)
next
  case False
  then have emp: "hour_partition taxi_trips h = []"
    unfolding hour_partition_def by (rule partition_empty)
  have look: "map_of (grouped (\<lambda>trip. datetime.hour (pickup_datetime trip)) taxi_trips) h = None"
    using False by (simp add: grouped_def map_of_keyed set_first_seen)
  show ?thesis
    by (simp add: hourly_entry_def look emp hourly_row_def py_round_zero)
qed

lemma hourly_loop_rows:
  "(\<And>h. h \<in> set hs \<Longrightarrow> hourly_entry d h = Inr (f h)) \<Longrightarrow>
     hourly_loop d hs acc = Inr (acc @ map f hs)"
  by (induction hs arbitrary: acc) simp_all

lemma get_hourly_analytics_rows:
  "get_hourly_analytics taxi_trips = Inr (map (hourly_row taxi_trips) [0..<24])"
proof -
  have "hourly_loop (grouped (\<lambda>trip. datetime.hour (pickup_datetime trip)) taxi_trips) [0..<24] [] =
      Inr ([] @ map (hourly_row taxi_trips) [0..<24])"
    by (rule hourly_loop_rows) (rule hourly_entry_grouped)
  then show ?thesis
    by (simp add: get_hourly_analytics_def get_hourly_analytics_body_def hourly_step_group_step
        foldl_group_step except_http_Inr)
qed

subsection \<open>The zone handler in closed form\<close>

lemma zone_entry_grouped:
  assumes "loc \<in> pickup_location_id ` set taxi_trips"
  shows "zone_entry (loc, group_of pickup_location_id taxi_trips loc) = Inr (zone_row taxi_trips loc)"
proof -
  from assms have ne: "zone_partition taxi_trips loc \<noteq> []"
    unfolding zone_partition_def by (rule partition_nonempty)
  have grp: "group_of pickup_location_id taxi_trips loc =
      \<lparr>trips = zone_partition taxi_trips loc,
       wait_times = map pickup_wait_time_minutes (zone_partition taxi_trips loc),
       delays = map is_delayed (zone_partition taxi_trips loc)\<rparr>"
    by (simp add: group_of_def zone_partition_def Let_def)
  show ?thesis
    using ne
    by (simp add: zone_entry_def grp truediv_def bind_exn_def py_sum_sum_list
        sum_list_of_bool_comp zone_row_def mean_def delayed_fraction_def Let_def mult.commute)
qed

lemma zone_loop_rows:
  "(\<And>item. item \<in> set items \<Longrightarrow> zone_entry item = Inr (f item)) \<Longrightarrow>
     zone_loop items acc = Inr (acc @ map f items)"
  by (induction items arbitrary: acc) simp_all

lemma zone_loop_grouped:
  "zone_loop (foldl zone_step [] taxi_trips) [] =
     Inr (map (zone_row taxi_trips) (first_seen (map pickup_location_id taxi_trips)))"
proof -
  have "zone_loop (grouped pickup_location_id taxi_trips) [] =
      Inr ([] @ map (\<lambda>item. zone_row taxi_trips (fst item)) (grouped pickup_location_id taxi_trips))"
  proof (rule zone_loop_rows)
    fix item
    assume "item \<in> set (grouped pickup_location_id taxi_trips)"
    then obtain loc where "loc \<in> pickup_location_id ` set taxi_trips"
      and "item = (loc, group_of pickup_location_id taxi_trips loc)"
      by (auto simp: grouped_def set_first_seen)
    then show "zone_entry item = Inr (zone_row taxi_trips (fst item))"
      by (simp add: zone_entry_grouped)
  qed
  then show ?thesis
    by (simp add: zone_step_group_step foldl_group_step grouped_def comp_def)
qed

lemma get_zone_analytics_rows:
  "get_zone_analytics taxi_trips =
     Inr (take 20 (sort_reverse ZoneAnalytics.trip_count
       (map (zone_row taxi_trips) (first_seen (map pickup_location_id taxi_trips)))))"
  by (simp add: get_zone_analytics_def get_zone_analytics_body_def zone_loop_grouped
      except_http_Inr)

subsection \<open>The stable descending sort\<close>

lemma insort_key_lex:
  assumes "sorted_wrt (\<lambda>a b. key a < key b \<or> (key a = key b \<and> R a b)) ys"
    and "\<And>y. y \<in> set ys \<Longrightarrow> R x y"
  shows "sorted_wrt (\<lambda>a b. key a < key b \<or> (key a = key b \<and> R a b)) (insort_key key x ys)"
  using assms
proof (induction ys)
  case Nil
  then show ?case by simp
next
  case (Cons y ys)
  show ?case
  proof (cases "key x \<le> key y")
    case True
    have "key x < key z \<or> (key x = key z \<and> R x z)" if "z \<in> set (y # ys)" for z
    proof -
      have "key y \<le> key z" using that Cons.prems(1) by auto
      with True have "key x \<le> key z" by simp
      moreover have "R x z" using that Cons.prems(2) by blast
      ultimately show ?thesis by auto
    qed
    with True Cons.prems(1) show ?thesis by simp
  next
    case False
    have "sorted_wrt (\<lambda>a b. key a < key b \<or> (key a = key b \<and> R a b)) (insort_key key x ys)"
      using Cons.prems by (intro Cons.IH) simp_all
    moreover have "key y < key z \<or> (key y = key z \<and> R y z)" if "z \<in> set (insort_key key x ys)" for z
      using that False Cons.prems(1) by (auto simp: set_insort_key)
    ultimately show ?thesis using False by simp
  qed
qed

lemma sort_key_lex:
  "sorted_wrt R xs \<Longrightarrow>
     sorted_wrt (\<lambda>a b. key a < key b \<or> (key a = key b \<and> R a b)) (sort_key key xs)"
proof (induction xs)
  case Nil
  then show ?case by simp
next
  case (Cons x xs)
  then have "sorted_wrt (\<lambda>a b. key a < key b \<or> (key a = key b \<and> R a b)) (sort_key key xs)"
    by simp
  moreover have "R x y" if "y \<in> set (sort_key key xs)" for y
    using that Cons.prems by auto
  ultimately have
    "sorted_wrt (\<lambda>a b. key a < key b \<or> (key a = key b \<and> R a b)) (insort_key key x (sort_key key xs))"
    by (rule insort_key_lex)
  then show ?case by simp
qed

lemma sort_reverse_lex:
  fixes key :: "'a \<Rightarrow> nat"
  assumes "sorted_wrt R xs"
  shows "sorted_wrt (\<lambda>a b. key b < key a \<or> (key a = key b \<and> R a b)) (sort_reverse key xs)"
proof -
  from assms have "sorted_wrt (\<lambda>a b. R b a) (rev xs)"
    by (simp add: sorted_wrt_rev)
  then have "sorted_wrt (\<lambda>a b. key a < key b \<or> (key a = key b \<and> R b a)) (sort_key key (rev xs))"
    by (rule sort_key_lex)
  then have "sorted_wrt (\<lambda>a b. key b < key a \<or> (key b = key a \<and> R a b)) (sort_reverse key xs)"
    by (simp add: sort_reverse_def sorted_wrt_rev)
  then show ?thesis
    by (rule sorted_wrt_mono_rel [rotated]) auto
qed

lemma sort_reverse_descending:
  fixes key :: "'a \<Rightarrow> nat"
  shows "sorted_wrt (\<lambda>a b. key b \<le> key a) (sort_reverse key xs)"
proof -
  have "sorted (map key (sort_key key (rev xs)))" by simp
  then have "sorted_wrt (\<lambda>a b. key a \<le> key b) (sort_key key (rev xs))"
    by (simp add: sorted_map)
  then show ?thesis by (simp add: sort_reverse_def sorted_wrt_rev)
qed

lemma set_sort_reverse: "set (sort_reverse key xs) = set xs"
  by (simp add: sort_reverse_def)

lemma length_sort_reverse: "length (sort_reverse key xs) = length xs"
  by (simp add: sort_reverse_def)


lemma first_seen_sorted:
  "sorted_wrt (\<lambda>a b. first_index xs a < first_index xs b) (first_seen xs)"
proof (induction xs)
  case Nil
  then show ?case by simp
next
  case (Cons x xs)
  have "sorted_wrt (\<lambda>a b. first_index xs a < first_index xs b) (filter (\<lambda>y. y \<noteq> x) (first_seen xs))"
    using Cons.IH by (rule sorted_wrt_filter)
  then have "sorted_wrt (\<lambda>a b. first_index (x # xs) a < first_index (x # xs) b)
      (filter (\<lambda>y. y \<noteq> x) (first_seen xs))"
    by (rule sorted_wrt_mono_rel [rotated]) auto
  then show ?case by auto
qed

subsection \<open>The overview handler in closed form, and counting by hour\<close>

lemma get_trip_analytics_row: "get_trip_analytics taxi_trips = Inr (overview_row taxi_trips)"
proof (cases "taxi_trips = []")
  case True
  then show ?thesis
    by (simp add: get_trip_analytics_def get_trip_analytics_body_def overview_row_def except_http_Inr)
next
  case False
  then show ?thesis
    by (simp add: get_trip_analytics_def overview_nonempty overview_row_def except_http_Inr)
qed

lemma count_split:
  "length (filter (\<lambda>x. key x < n) xs) + length (filter (\<lambda>x. key x = n) xs) =
     length (filter (\<lambda>x. key x < Suc n) xs)"
  by (induction xs) (auto simp: less_Suc_eq)

lemma count_by_key:
  "(\<Sum>h\<leftarrow>[0..<n]. length (filter (\<lambda>x. key x = h) xs)) = length (filter (\<lambda>x. key x < n) xs)"
  by (induction n) (simp_all add: count_split)

lemma hourly_counts_total:
  assumes "\<forall>trip\<in>set taxi_trips. valid_trip trip"
  shows "sum_list (map HourlyAnalytics.trip_count (map (hourly_row taxi_trips) [0..<24])) =
     length taxi_trips"
proof -
  have "sum_list (map HourlyAnalytics.trip_count (map (hourly_row taxi_trips) [0..<24])) =
      (\<Sum>h\<leftarrow>[0..<24]. length (filter (\<lambda>trip. datetime.hour (pickup_datetime trip) = h) taxi_trips))"
    by (simp add: comp_def hourly_row_def hour_partition_def Let_def)
  also have "\<dots> = length (filter (\<lambda>trip. datetime.hour (pickup_datetime trip) < 24) taxi_trips)"
    by (rule count_by_key)
  also have "\<dots> = length taxi_trips"
    using assms by (simp add: valid_trip_def)
  finally show ?thesis .
qed

subsection \<open>Facts about the returned zones\<close>

lemma zone_rows_ids: "map location_id (map (zone_row taxi_trips) ks) = ks"
  by (induction ks) (simp_all add: zone_row_def Let_def)

lemma length_first_seen: "length (first_seen xs) = card (set xs)"
  using distinct_card [OF distinct_first_seen, of xs] by (simp add: set_first_seen)

lemma returned_zones_subset:
  "set (take 20 (sort_reverse key entries)) \<subseteq> set entries"
  using set_take_subset [of 20 "sort_reverse key entries"] by (simp add: set_sort_reverse)



subsection \<open>The zone handler on the sample records\<close>

lemma sample_ids: "map pickup_location_id sample_trips = [7, 42, 9, 42]"
  by (simp add: sample_trips_def sample_trip_def)

lemma sample_first_seen: "first_seen (map pickup_location_id sample_trips) = [7, 42, 9]"
  by (simp add: sample_ids)

lemma sample_partitions:
  "zone_partition sample_trips 7 = [sample_trip 5 7 3 False]"
  "zone_partition sample_trips 42 = [sample_trip 5 42 15 True, sample_trip 7 42 4 False]"
  "zone_partition sample_trips 9 = [sample_trip 6 9 4 False]"
  by (simp_all add: zone_partition_def sample_trips_def sample_trip_def)

lemma sample_rows:
  "zone_row sample_trips 7 =
     \<lparr>location_id = 7, zone_name = ''Zone 7'', ZoneAnalytics.trip_count = 1,
      ZoneAnalytics.avg_wait_time = 3, ZoneAnalytics.delay_percentage = 0\<rparr>"
  "zone_row sample_trips 42 =
     \<lparr>location_id = 42, zone_name = ''Zone 42'', ZoneAnalytics.trip_count = 2,
      ZoneAnalytics.avg_wait_time = 19 / 2, ZoneAnalytics.delay_percentage = 50\<rparr>"
  "zone_row sample_trips 9 =
     \<lparr>location_id = 9, zone_name = ''Zone 9'', ZoneAnalytics.trip_count = 1,
      ZoneAnalytics.avg_wait_time = 4, ZoneAnalytics.delay_percentage = 0\<rparr>"
  by (simp_all add: zone_row_def sample_partitions sample_trip_def mean_def delayed_fraction_def
      py_round_def round_half_even_def str_int_def str_nat.simps digit_char_def)

lemma sample_entries:
  "zone_loop (foldl zone_step [] sample_trips) [] =
     Inr [\<lparr>location_id = 7, zone_name = ''Zone 7'', ZoneAnalytics.trip_count = 1,
           ZoneAnalytics.avg_wait_time = 3, ZoneAnalytics.delay_percentage = 0\<rparr>,
          \<lparr>location_id = 42, zone_name = ''Zone 42'', ZoneAnalytics.trip_count = 2,
           ZoneAnalytics.avg_wait_time = 19 / 2, ZoneAnalytics.delay_percentage = 50\<rparr>,
          \<lparr>location_id = 9, zone_name = ''Zone 9'', ZoneAnalytics.trip_count = 1,
           ZoneAnalytics.avg_wait_time = 4, ZoneAnalytics.delay_percentage = 0\<rparr>]"
  by (simp add: zone_loop_grouped sample_first_seen sample_rows)

lemma sample_zones:
  "get_zone_analytics sample_trips =
     Inr [\<lparr>location_id = 42, zone_name = ''Zone 42'', ZoneAnalytics.trip_count = 2,
           ZoneAnalytics.avg_wait_time = 19 / 2, ZoneAnalytics.delay_percentage = 50\<rparr>,
          \<lparr>location_id = 7, zone_name = ''Zone 7'', ZoneAnalytics.trip_count = 1,
           ZoneAnalytics.avg_wait_time = 3, ZoneAnalytics.delay_percentage = 0\<rparr>,
          \<lparr>location_id = 9, zone_name = ''Zone 9'', ZoneAnalytics.trip_count = 1,
           ZoneAnalytics.avg_wait_time = 4, ZoneAnalytics.delay_percentage = 0\<rparr>]"
  by (simp add: get_zone_analytics_rows sample_first_seen sample_rows sort_reverse_def)

subsection \<open>The handlers on a store read only\<close>

lemma for_each_st_foldl:
  "for_each_st body rs acc s = (foldl body acc (map (documents s) rs), s)"
  by (induction rs arbitrary: acc) simp_all

lemma foldl_snoc_collect: "foldl (\<lambda>acc x. acc @ [x]) acc xs = acc @ xs"
  by (induction xs arbitrary: acc) simp_all

lemma read_st_load: "read_st s = (load s, s)"
  by (simp add: read_st_def for_each_st_foldl foldl_snoc_collect load_def)

lemma get_trip_analytics_st_load:
  "get_trip_analytics_st s = (get_trip_analytics (load s), s)"
  by (simp add: get_trip_analytics_st_def read_st_load)

lemma get_hourly_analytics_st_load:
  "get_hourly_analytics_st s = (get_hourly_analytics (load s), s)"
  by (simp add: get_hourly_analytics_st_def for_each_st_foldl load_def get_hourly_analytics_def
      get_hourly_analytics_body_def)

lemma get_zone_analytics_st_load:
  "get_zone_analytics_st s = (get_zone_analytics (load s), s)"
  by (simp add: get_zone_analytics_st_def for_each_st_foldl load_def get_zone_analytics_def
      get_zone_analytics_body_def)

section \<open>The claims\<close>

text \<open>
  Claim C1. When every record carries a valid pickup time (hour of the day below 24, as every
  \<^verbatim>\<open>datetime\<close> does), the hourly handler returns 24 entries whose \<open>trip_count\<close> fields sum
  to the \<open>total_trips\<close> field that the overview handler returns on the same records.
\<close>

theorem hourly_trip_counts_sum_to_total_trips:
  assumes "\<forall>trip\<in>set taxi_trips. valid_trip trip"
  shows "\<exists>hs ov. get_hourly_analytics taxi_trips = Inr hs \<and>
           get_trip_analytics taxi_trips = Inr ov \<and>
           length hs = 24 \<and>
           sum_list (map HourlyAnalytics.trip_count hs) = total_trips ov"
  using hourly_counts_total [OF assms]
  by (simp add: get_hourly_analytics_rows get_trip_analytics_row overview_row_def)

theorem hourly_trip_counts_sum_to_total_trips_witness:
  "valid_trip (sample_trip 5 42 15 True) \<and> valid_trip (sample_trip 23 7 3 False) \<and>
   valid_trip (sample_trip 5 7 4 False) \<and>
   (\<exists>hs ov. get_hourly_analytics [sample_trip 5 42 15 True, sample_trip 23 7 3 False,
                sample_trip 5 7 4 False] = Inr hs \<and>
        get_trip_analytics [sample_trip 5 42 15 True, sample_trip 23 7 3 False,
                sample_trip 5 7 4 False] = Inr ov \<and>
        length hs = 24 \<and>
        sum_list (map HourlyAnalytics.trip_count hs) = total_trips ov \<and> total_trips ov = 3)"
proof -
  have valid: "\<forall>trip\<in>set [sample_trip 5 42 15 True, sample_trip 23 7 3 False, sample_trip 5 7 4 False].
      valid_trip trip"
    by (simp add: valid_trip_def sample_trip_def)
  from hourly_trip_counts_sum_to_total_trips [OF valid] valid show ?thesis
    by (auto simp: get_trip_analytics_row overview_row_def)
qed

text \<open>
  Claim C2. On a non-empty record set the overview handler returns the number of records,
  the mean duration rounded to 1 decimal, the mean fare rounded to 2 decimals, the sum of the
  total amounts rounded to 2 decimals, the number of delayed records, 100 times the delayed
  count divided by the number of records rounded to 1 decimal, and the mean waiting time
  rounded to 1 decimal.
\<close>

theorem overview_of_nonempty_records:
  assumes "taxi_trips \<noteq> []"
  shows "get_trip_analytics taxi_trips =
     Inr \<lparr>total_trips = length taxi_trips,
          avg_trip_duration = py_round (mean (map trip_duration_minutes taxi_trips)) 1,
          avg_fare = py_round (mean (map fare_amount taxi_trips)) 2,
          total_revenue = py_round (sum_list (map total_amount taxi_trips)) 2,
          delayed_trips_count = length (filter is_delayed taxi_trips),
          TripAnalytics.delay_percentage =
            py_round (100 * real (length (filter is_delayed taxi_trips)) / real (length taxi_trips)) 1,
          TripAnalytics.avg_wait_time = py_round (mean (map pickup_wait_time_minutes taxi_trips)) 1\<rparr>"
  using assms by (simp add: get_trip_analytics_def overview_nonempty except_http_Inr)

theorem overview_of_nonempty_records_witness:
  "[sample_trip 5 42 15 True] \<noteq> [] \<and>
   get_trip_analytics [sample_trip 5 42 15 True] =
     Inr \<lparr>total_trips = 1, avg_trip_duration = 20, avg_fare = 10, total_revenue = 13,
          delayed_trips_count = 1, TripAnalytics.delay_percentage = 100,
          TripAnalytics.avg_wait_time = 15\<rparr>"
  using overview_of_nonempty_records [of "[sample_trip 5 42 15 True]"]
  by (simp add: sample_trip_def mean_def py_round_def round_half_even_def)

text \<open>
  Claim C3. The hourly handler returns exactly 24 entries, for the hours 0 to 23 in
  ascending order. The entry of an hour with at least one record carries the size of that
  hour's partition, the partition's mean waiting time rounded to 1 decimal and 100 times
  the partition's delayed fraction rounded to 1 decimal; the entry of an hour without
  records carries zero in all three fields.
\<close>

theorem hourly_entries:
  "\<exists>hs. get_hourly_analytics taxi_trips = Inr hs \<and>
     length hs = 24 \<and>
     map HourlyAnalytics.hour hs = [0..<24] \<and>
     (\<forall>h<24.
        (hour_partition taxi_trips h \<noteq> [] \<longrightarrow>
           HourlyAnalytics.trip_count (hs ! h) = length (hour_partition taxi_trips h) \<and>
           HourlyAnalytics.avg_wait_time (hs ! h) =
             py_round (mean (map pickup_wait_time_minutes (hour_partition taxi_trips h))) 1 \<and>
           HourlyAnalytics.delay_percentage (hs ! h) =
             py_round (100 * delayed_fraction (hour_partition taxi_trips h)) 1) \<and>
        (hour_partition taxi_trips h = [] \<longrightarrow>
           HourlyAnalytics.trip_count (hs ! h) = 0 \<and>
           HourlyAnalytics.avg_wait_time (hs ! h) = 0 \<and>
           HourlyAnalytics.delay_percentage (hs ! h) = 0))"
proof -
  let ?hs = "map (hourly_row taxi_trips) [0..<24]"
  have "map HourlyAnalytics.hour ?hs = map (\<lambda>h. h) [0..<24]"
    unfolding map_map by (rule map_cong) (simp_all add: hourly_row_def Let_def)
  then have hours: "map HourlyAnalytics.hour ?hs = [0..<24]" by simp
  have nth: "?hs ! h = hourly_row taxi_trips h" if "h < 24" for h
    using that by (simp del: upt_Suc)
  have rows: "\<forall>h<24.
        (hour_partition taxi_trips h \<noteq> [] \<longrightarrow>
           HourlyAnalytics.trip_count (?hs ! h) = length (hour_partition taxi_trips h) \<and>
           HourlyAnalytics.avg_wait_time (?hs ! h) =
             py_round (mean (map pickup_wait_time_minutes (hour_partition taxi_trips h))) 1 \<and>
           HourlyAnalytics.delay_percentage (?hs ! h) =
             py_round (100 * delayed_fraction (hour_partition taxi_trips h)) 1) \<and>
        (hour_partition taxi_trips h = [] \<longrightarrow>
           HourlyAnalytics.trip_count (?hs ! h) = 0 \<and>
           HourlyAnalytics.avg_wait_time (?hs ! h) = 0 \<and>
           HourlyAnalytics.delay_percentage (?hs ! h) = 0)" (is "\<forall>h<24. ?Q h")
  proof (rule allI, rule impI)
    fix h :: nat
    assume h: "h < 24"
    show "?Q h" unfolding nth [OF h] by (simp add: hourly_row_def Let_def)
  qed
  have len: "length ?hs = 24" by simp
  show ?thesis
    apply (rule exI [of _ ?hs])
    apply (intro conjI)
       apply (rule get_hourly_analytics_rows)
      apply (rule len)
     apply (rule hours)
    apply (rule rows)
    done
qed

theorem hourly_entries_witness:
  "\<exists>hs. get_hourly_analytics [sample_trip 5 42 15 True, sample_trip 23 7 3 False,
            sample_trip 5 7 4 False] = Inr hs \<and>
     length hs = 24 \<and>
     map HourlyAnalytics.hour hs = [0..<24] \<and>
     HourlyAnalytics.trip_count (hs ! 5) = 2 \<and>
     HourlyAnalytics.avg_wait_time (hs ! 5) = 19 / 2 \<and>
     HourlyAnalytics.delay_percentage (hs ! 5) = 50 \<and>
     HourlyAnalytics.trip_count (hs ! 6) = 0 \<and>
     HourlyAnalytics.avg_wait_time (hs ! 6) = 0 \<and>
     HourlyAnalytics.delay_percentage (hs ! 6) = 0"
proof -
  let ?ts = "[sample_trip 5 42 15 True, sample_trip 23 7 3 False, sample_trip 5 7 4 False]"
  have p5: "hour_partition ?ts 5 = [sample_trip 5 42 15 True, sample_trip 5 7 4 False]"
    by (simp add: hour_partition_def sample_trip_def)
  have p6: "hour_partition ?ts 6 = []"
    by (simp add: hour_partition_def sample_trip_def)
  have m5: "py_round (mean (map pickup_wait_time_minutes
      [sample_trip 5 42 15 True, sample_trip 5 7 4 False])) 1 = 19 / 2"
    by (simp add: sample_trip_def mean_def py_round_def round_half_even_def)
  have d5: "py_round (100 * delayed_fraction
      [sample_trip 5 42 15 True, sample_trip 5 7 4 False]) 1 = 50"
    by (simp add: sample_trip_def delayed_fraction_def py_round_def round_half_even_def)
  from hourly_entries [of ?ts] show ?thesis
  proof (elim exE conjE)
    fix hs
    assume hs: "get_hourly_analytics ?ts = Inr hs" "length hs = 24"
      "map HourlyAnalytics.hour hs = [0..<24]"
    assume rows: "\<forall>h<24.
        (hour_partition ?ts h \<noteq> [] \<longrightarrow>
           HourlyAnalytics.trip_count (hs ! h) = length (hour_partition ?ts h) \<and>
           HourlyAnalytics.avg_wait_time (hs ! h) =
             py_round (mean (map pickup_wait_time_minutes (hour_partition ?ts h))) 1 \<and>
           HourlyAnalytics.delay_percentage (hs ! h) =
             py_round (100 * delayed_fraction (hour_partition ?ts h)) 1) \<and>
        (hour_partition ?ts h = [] \<longrightarrow>
           HourlyAnalytics.trip_count (hs ! h) = 0 \<and>
           HourlyAnalytics.avg_wait_time (hs ! h) = 0 \<and>
           HourlyAnalytics.delay_percentage (hs ! h) = 0)"
    from rows [rule_format, of 5] have r5:
      "HourlyAnalytics.trip_count (hs ! 5) = 2"
      "HourlyAnalytics.avg_wait_time (hs ! 5) = 19 / 2"
      "HourlyAnalytics.delay_percentage (hs ! 5) = 50"
      unfolding p5 m5 d5 by simp_all
    from rows [rule_format, of 6] have r6:
      "HourlyAnalytics.trip_count (hs ! 6) = 0"
      "HourlyAnalytics.avg_wait_time (hs ! 6) = 0"
      "HourlyAnalytics.delay_percentage (hs ! 6) = 0"
      unfolding p6 by simp_all
    show ?thesis
      apply (rule exI [of _ hs])
      apply (intro conjI)
              apply (rule hs r5 r6)+
      done
  qed
qed

text \<open>
  Claim C4. The zone handler returns at most 20 entries, sorted by \<open>trip_count\<close> descending;
  of two entries with equal \<open>trip_count\<close> the one whose zone first appears earlier in the
  input comes first.
\<close>

theorem zones_top_20_sorted:
  "\<exists>zs. get_zone_analytics taxi_trips = Inr zs \<and>
     length zs \<le> 20 \<and>
     sorted_wrt (\<lambda>a b. ZoneAnalytics.trip_count b \<le> ZoneAnalytics.trip_count a) zs \<and>
     sorted_wrt (\<lambda>a b. ZoneAnalytics.trip_count b < ZoneAnalytics.trip_count a \<or>
                   (ZoneAnalytics.trip_count a = ZoneAnalytics.trip_count b \<and>
                    first_index (map pickup_location_id taxi_trips) (location_id a) <
                    first_index (map pickup_location_id taxi_trips) (location_id b))) zs"
proof -
  let ?ids = "map pickup_location_id taxi_trips"
  let ?entries = "map (zone_row taxi_trips) (first_seen ?ids)"
  let ?sorted = "sort_reverse ZoneAnalytics.trip_count ?entries"
  have "sorted_wrt (\<lambda>a b. first_index ?ids a < first_index ?ids b) (map location_id ?entries)"
    unfolding zone_rows_ids by (rule first_seen_sorted)
  then have "sorted_wrt (\<lambda>a b. first_index ?ids (location_id a) < first_index ?ids (location_id b))
      ?entries"
    by (simp only: sorted_wrt_map)
  then have "sorted_wrt (\<lambda>a b. ZoneAnalytics.trip_count b < ZoneAnalytics.trip_count a \<or>
                   (ZoneAnalytics.trip_count a = ZoneAnalytics.trip_count b \<and>
                    first_index ?ids (location_id a) < first_index ?ids (location_id b))) ?sorted"
    by (rule sort_reverse_lex)
  then have ties: "sorted_wrt (\<lambda>a b. ZoneAnalytics.trip_count b < ZoneAnalytics.trip_count a \<or>
                   (ZoneAnalytics.trip_count a = ZoneAnalytics.trip_count b \<and>
                    first_index ?ids (location_id a) < first_index ?ids (location_id b)))
      (take 20 ?sorted)"
    by (rule sorted_wrt_take)
  have "sorted_wrt (\<lambda>a b. ZoneAnalytics.trip_count b \<le> ZoneAnalytics.trip_count a) ?sorted"
    by (rule sort_reverse_descending)
  then have desc: "sorted_wrt (\<lambda>a b. ZoneAnalytics.trip_count b \<le> ZoneAnalytics.trip_count a)
      (take 20 ?sorted)"
    by (rule sorted_wrt_take)
  have len: "length (take 20 ?sorted) \<le> 20" by simp
  show ?thesis
    apply (rule exI [of _ "take 20 ?sorted"])
    apply (intro conjI)
       apply (rule get_zone_analytics_rows)
      apply (rule len)
     apply (rule desc)
    apply (rule ties)
    done
qed

theorem zones_top_20_sorted_witness:
  "\<exists>zs. get_zone_analytics sample_trips = Inr zs \<and>
     map location_id zs = [42, 7, 9] \<and>
     map ZoneAnalytics.trip_count zs = [2, 1, 1] \<and>
     length zs \<le> 20 \<and>
     sorted_wrt (\<lambda>a b. ZoneAnalytics.trip_count b \<le> ZoneAnalytics.trip_count a) zs \<and>
     sorted_wrt (\<lambda>a b. ZoneAnalytics.trip_count b < ZoneAnalytics.trip_count a \<or>
                   (ZoneAnalytics.trip_count a = ZoneAnalytics.trip_count b \<and>
                    first_index (map pickup_location_id sample_trips) (location_id a) <
                    first_index (map pickup_location_id sample_trips) (location_id b))) zs"
  using zones_top_20_sorted [of sample_trips]
proof (elim exE conjE)
  fix zs
  assume zs: "get_zone_analytics sample_trips = Inr zs"
    and len: "length zs \<le> 20"
    and desc: "sorted_wrt (\<lambda>a b. ZoneAnalytics.trip_count b \<le> ZoneAnalytics.trip_count a) zs"
    and ties: "sorted_wrt (\<lambda>a b. ZoneAnalytics.trip_count b < ZoneAnalytics.trip_count a \<or>
                   (ZoneAnalytics.trip_count a = ZoneAnalytics.trip_count b \<and>
                    first_index (map pickup_location_id sample_trips) (location_id a) <
                    first_index (map pickup_location_id sample_trips) (location_id b))) zs"
  from zs have ids: "map location_id zs = [42, 7, 9]"
    and counts: "map ZoneAnalytics.trip_count zs = [2, 1, 1]"
    unfolding sample_zones by auto
  show ?thesis
    apply (rule exI [of _ zs])
    apply (intro conjI)
         apply (rule zs ids counts len desc ties)+
    done
qed

text \<open>
  Claim C5. The loop over \<^verbatim>\<open>zone_data.items()\<close> produces one entry for every distinct
  \<open>pickup_location_id\<close> in the records and for no other id. Each entry carries the size of
  its zone's partition, the partition's mean waiting time rounded to 1 decimal, 100 times
  the partition's delayed fraction rounded to 1 decimal, and the name \<^verbatim>\<open>Zone <id>\<close>. The
  handler returns the first 20 of these entries after sorting; when there are at most 20
  distinct zones (so also when there are fewer than 20), it returns every one of them.
\<close>

theorem zone_entries:
  "\<exists>entries zs.
     zone_loop (foldl zone_step [] taxi_trips) [] = Inr entries \<and>
     distinct (map location_id entries) \<and>
     set (map location_id entries) = pickup_location_id ` set taxi_trips \<and>
     (\<forall>z\<in>set entries.
        ZoneAnalytics.trip_count z = length (zone_partition taxi_trips (location_id z)) \<and>
        ZoneAnalytics.avg_wait_time z =
          py_round (mean (map pickup_wait_time_minutes
            (zone_partition taxi_trips (location_id z)))) 1 \<and>
        ZoneAnalytics.delay_percentage z =
          py_round (100 * delayed_fraction (zone_partition taxi_trips (location_id z))) 1 \<and>
        zone_name z = ''Zone '' @ str_int (location_id z)) \<and>
     get_zone_analytics taxi_trips = Inr zs \<and>
     zs = take 20 (sort_reverse ZoneAnalytics.trip_count entries) \<and>
     set zs \<subseteq> set entries \<and>
     (card (pickup_location_id ` set taxi_trips) \<le> 20 \<longrightarrow> set zs = set entries)"
proof -
  let ?ids = "map pickup_location_id taxi_trips"
  let ?entries = "map (zone_row taxi_trips) (first_seen ?ids)"
  let ?zs = "take 20 (sort_reverse ZoneAnalytics.trip_count ?entries)"
  have dist: "distinct (map location_id ?entries)"
    unfolding zone_rows_ids by (rule distinct_first_seen)
  have ids: "set (map location_id ?entries) = pickup_location_id ` set taxi_trips"
    unfolding zone_rows_ids by (simp add: set_first_seen)
  have fields: "\<forall>z\<in>set ?entries.
        ZoneAnalytics.trip_count z = length (zone_partition taxi_trips (location_id z)) \<and>
        ZoneAnalytics.avg_wait_time z =
          py_round (mean (map pickup_wait_time_minutes
            (zone_partition taxi_trips (location_id z)))) 1 \<and>
        ZoneAnalytics.delay_percentage z =
          py_round (100 * delayed_fraction (zone_partition taxi_trips (location_id z))) 1 \<and>
        zone_name z = ''Zone '' @ str_int (location_id z)" (is "\<forall>z\<in>set ?entries. ?F z")
  proof (rule ballI)
    fix z
    assume "z \<in> set ?entries"
    then obtain loc where z: "z = zone_row taxi_trips loc" by auto
    show "?F z" unfolding z by (simp add: zone_row_def Let_def)
  qed
  have sub: "set ?zs \<subseteq> set ?entries" by (rule returned_zones_subset)
  have all: "card (pickup_location_id ` set taxi_trips) \<le> 20 \<longrightarrow> set ?zs = set ?entries"
  proof (rule impI)
    assume "card (pickup_location_id ` set taxi_trips) \<le> 20"
    then have "length (sort_reverse ZoneAnalytics.trip_count ?entries) \<le> 20"
      by (simp add: length_sort_reverse length_first_seen)
    then have "?zs = sort_reverse ZoneAnalytics.trip_count ?entries"
      by (rule take_all)
    then show "set ?zs = set ?entries"
      by (simp only: set_sort_reverse)
  qed
  show ?thesis
    apply (rule exI [of _ ?entries])
    apply (rule exI [of _ ?zs])
    apply (intro conjI)
           apply (rule zone_loop_grouped)
          apply (rule dist)
         apply (rule ids)
        apply (rule fields)
       apply (rule get_zone_analytics_rows)
      apply (rule refl)
     apply (rule sub)
    apply (rule all)
    done
qed

theorem zone_entries_witness:
  "\<exists>entries zs.
     zone_loop (foldl zone_step [] sample_trips) [] = Inr entries \<and>
     map location_id entries = [7, 42, 9] \<and>
     get_zone_analytics sample_trips = Inr zs \<and>
     zs = [\<lparr>location_id = 42, zone_name = ''Zone 42'', ZoneAnalytics.trip_count = 2,
            ZoneAnalytics.avg_wait_time = 19 / 2, ZoneAnalytics.delay_percentage = 50\<rparr>,
           \<lparr>location_id = 7, zone_name = ''Zone 7'', ZoneAnalytics.trip_count = 1,
            ZoneAnalytics.avg_wait_time = 3, ZoneAnalytics.delay_percentage = 0\<rparr>,
           \<lparr>location_id = 9, zone_name = ''Zone 9'', ZoneAnalytics.trip_count = 1,
            ZoneAnalytics.avg_wait_time = 4, ZoneAnalytics.delay_percentage = 0\<rparr>] \<and>
     card (pickup_location_id ` set sample_trips) \<le> 20 \<and>
     set zs = set entries"
  using zone_entries [of sample_trips]
proof (elim exE conjE)
  fix entries zs
  assume entries: "zone_loop (foldl zone_step [] sample_trips) [] = Inr entries"
    and zs: "get_zone_analytics sample_trips = Inr zs"
    and all: "card (pickup_location_id ` set sample_trips) \<le> 20 \<longrightarrow> set zs = set entries"
  have "pickup_location_id ` set sample_trips = set (map pickup_location_id sample_trips)"
    by simp
  also have "\<dots> = {7, 42, 9}" unfolding sample_ids by auto
  finally have "card (pickup_location_id ` set sample_trips) = 3" by simp
  then have card: "card (pickup_location_id ` set sample_trips) \<le> 20" by simp
  with all have same: "set zs = set entries" by (rule mp)
  from entries have ids: "map location_id entries = [7, 42, 9]"
    unfolding sample_entries by auto
  from zs have val: "zs =
          [\<lparr>location_id = 42, zone_name = ''Zone 42'', ZoneAnalytics.trip_count = 2,
            ZoneAnalytics.avg_wait_time = 19 / 2, ZoneAnalytics.delay_percentage = 50\<rparr>,
           \<lparr>location_id = 7, zone_name = ''Zone 7'', ZoneAnalytics.trip_count = 1,
            ZoneAnalytics.avg_wait_time = 3, ZoneAnalytics.delay_percentage = 0\<rparr>,
           \<lparr>location_id = 9, zone_name = ''Zone 9'', ZoneAnalytics.trip_count = 1,
            ZoneAnalytics.avg_wait_time = 4, ZoneAnalytics.delay_percentage = 0\<rparr>]"
    unfolding sample_zones by simp
  show ?thesis
    apply (rule exI [of _ entries])
    apply (rule exI [of _ zs])
    apply (intro conjI)
         apply (rule entries ids zs val card same)+
    done
qed

text \<open>
  Claim C6. On the empty record set the overview handler returns seven zero fields, the
  hourly handler returns the 24 entries for the hours 0 to 23 with their three numeric
  fields zero, and the zone handler returns the empty list.
\<close>

theorem empty_record_set:
  "get_trip_analytics [] =
     Inr \<lparr>total_trips = 0, avg_trip_duration = 0, avg_fare = 0, total_revenue = 0,
          delayed_trips_count = 0, TripAnalytics.delay_percentage = 0,
          TripAnalytics.avg_wait_time = 0\<rparr> \<and>
   get_hourly_analytics [] =
     Inr (map (\<lambda>h. \<lparr>hour = h, HourlyAnalytics.avg_wait_time = 0, HourlyAnalytics.trip_count = 0,
                    HourlyAnalytics.delay_percentage = 0\<rparr>) [0..<24]) \<and>
   get_zone_analytics [] = Inr []"
  by (simp add: get_trip_analytics_row overview_row_def get_hourly_analytics_rows hourly_row_def
      hour_partition_def get_zone_analytics_rows sort_reverse_def)

text \<open>
  Claim C7. Every division of the three handlers goes through \<open>truediv\<close>, which raises
  \<^verbatim>\<open>ZeroDivisionError\<close> on a zero divisor, and an exception makes a handler return \<open>Inl\<close>.
  For every list of records, the empty one included, each handler returns \<open>Inr\<close>: no
  division meets a zero divisor.
\<close>

theorem handlers_never_divide_by_zero:
  "(\<exists>ov. get_trip_analytics taxi_trips = Inr ov) \<and>
   (\<exists>hs. get_hourly_analytics taxi_trips = Inr hs) \<and>
   (\<exists>zs. get_zone_analytics taxi_trips = Inr zs)"
  by (simp add: get_trip_analytics_row get_hourly_analytics_rows get_zone_analytics_rows)


text \<open>
  Claim C9. At store level, a handler called twice in a row gives the same response both
  times, the response of the value-level handler on the records the store holds, and leaves
  the store (the input list and every document) as it was; so does a single call.
\<close>

theorem handlers_deterministic_and_pure:
  "call_twice get_trip_analytics_st s =
     (get_trip_analytics (load s), get_trip_analytics (load s), s) \<and>
   call_twice get_hourly_analytics_st s =
     (get_hourly_analytics (load s), get_hourly_analytics (load s), s) \<and>
   call_twice get_zone_analytics_st s =
     (get_zone_analytics (load s), get_zone_analytics (load s), s) \<and>
   snd (get_trip_analytics_st s) = s \<and>
   snd (get_hourly_analytics_st s) = s \<and>
   snd (get_zone_analytics_st s) = s"
  by (simp add: call_twice_def get_trip_analytics_st_load get_hourly_analytics_st_load
      get_zone_analytics_st_load)



end
